theory Spec2Isabelle
  imports Main "HOL-Library.Sublist" "HOL-Library.AList"
begin

section \<open>JavaScript strings and values\<close>

text \<open>
  A JavaScript string is modelled as a \<open>string\<close> (a list of characters); the functions
  below only compare and copy characters, so the width of a code unit does not matter.
  A value that may be \<open>undefined\<close> is an \<open>option\<close>. The single quote and the backslash
  are written by their codes.
\<close>

definition sq :: char where
  "sq = CHR 0x27"

definition bs :: char where
  "bs = CHR 0x5C"

text \<open>Truthiness of \<open>string | undefined\<close>: \<open>undefined\<close> and the empty string are falsy.\<close>

fun truthy :: "string option \<Rightarrow> bool" where
  "truthy None = False"
| "truthy (Some s) = (s \<noteq> [])"

text \<open>\<open>a || b\<close> on optional strings.\<close>

definition js_or :: "string option \<Rightarrow> string option \<Rightarrow> string option" where
  "js_or a b = (if truthy a then a else b)"

text \<open>\<open>a || ""\<close>: the string itself, or the empty string.\<close>

definition or_empty :: "string option \<Rightarrow> string" where
  "or_empty a = (case a of None \<Rightarrow> [] | Some s \<Rightarrow> s)"

text \<open>\<open>String.prototype.startsWith\<close> and \<open>String.prototype.includes\<close>.\<close>

fun starts_with :: "string \<Rightarrow> string \<Rightarrow> bool" where
  "starts_with s [] = True"
| "starts_with [] (p # ps) = False"
| "starts_with (c # cs) (p # ps) = (c = p \<and> starts_with cs ps)"

fun js_includes :: "string \<Rightarrow> string \<Rightarrow> bool" where
  "js_includes [] p = (p = [])"
| "js_includes (c # cs) p = (starts_with (c # cs) p \<or> js_includes cs p)"

text \<open>
  \<open>s.replace(/c/g, rep)\<close> for a pattern that is one literal character: every
  occurrence of \<open>c\<close> is replaced, left to right.
\<close>

fun replace_char_global :: "char \<Rightarrow> string \<Rightarrow> string \<Rightarrow> string" where
  "replace_char_global c rep [] = []"
| "replace_char_global c rep (x # xs) =
     (if x = c then rep @ replace_char_global c rep xs
      else x # replace_char_global c rep xs)"

text \<open>\<open>args[i]\<close>: \<open>undefined\<close> past the end of the array.\<close>

definition arg_at :: "string list \<Rightarrow> nat \<Rightarrow> string option" where
  "arg_at args i = (if i < length args then Some (args ! i) else None)"

section \<open>Errors\<close>

text \<open>
  \<open>Error m\<close> is \<open>new Error(m)\<close> thrown by the code of \<^verbatim>\<open>drive-service.ts\<close>;
  \<open>ProviderError m\<close> is whatever the OAuth2 client library or the remote API throws;
  the remaining constructors are the failure kinds of the specification's taxonomy, used
  by the components modelled from the specification. No code of \<^verbatim>\<open>drive-service.ts\<close> or
  \<^verbatim>\<open>cli.ts\<close> raises \<open>ReauthorizationRequired\<close>; it is here so that the statement
  "the failure is signalled as ReauthorizationRequired" can be written down.
\<close>

datatype error =
    Error string
  | ProviderError string
  | DuplicateAccount
  | StateMismatch
  | UserDenied
  | AuthorizationTimeout
  | TokenExchangeFailed
  | MalformedRedirect
  | ReauthorizationRequired

section \<open>Data model\<close>

text \<open>
  \<^verbatim>\<open>types.ts\<close> is not among the sources; the shape of \<open>DriveAccount\<close> is read off its
  uses in \<^verbatim>\<open>drive-service.ts\<close>: \<open>{email, oauth2: {clientId, clientSecret, refreshToken,
  accessToken?}}\<close>. The client credentials are \<open>{clientId, clientSecret}\<close>.
\<close>

record ClientCredentials =
  clientId :: string
  clientSecret :: string

record OAuth2Fields = ClientCredentials +
  refreshToken :: string
  accessToken :: "string option"

record DriveAccount =
  email :: string
  oauth2 :: OAuth2Fields

section \<open>AccountStorage\<close>

text \<open>
  \<^verbatim>\<open>account-storage.ts\<close> is not among the sources. The store is a list of records in
  insertion order together with the optional client credentials; reading and writing the
  backing files is not modelled.
\<close>

record AccountStorage =
  accounts :: "DriveAccount list"
  credentials :: "ClientCredentials option"

text \<open>Modelled from the spec: \<open>AccountStorage.hasAccount\<close>, whether a record with
  this identity is present.\<close>

definition storage_hasAccount :: "AccountStorage \<Rightarrow> string \<Rightarrow> bool" where
  "storage_hasAccount s e = (e \<in> set (map email (accounts s)))"

text \<open>Modelled from the spec: \<open>AccountStorage.getAccount\<close>, "returns the record or a
  not-found signal; never raises for missing entries".\<close>

definition storage_getAccount :: "AccountStorage \<Rightarrow> string \<Rightarrow> DriveAccount option" where
  "storage_getAccount s e = find (\<lambda>a. email a = e) (accounts s)"

text \<open>Modelled from the spec: \<open>AccountStorage.addAccount\<close>, "fails with
  DuplicateAccount if identity already present"; otherwise the record is appended.\<close>

definition storage_addAccount :: "AccountStorage \<Rightarrow> DriveAccount \<Rightarrow> error + AccountStorage" where
  "storage_addAccount s a =
     (if storage_hasAccount s (email a) then Inl DuplicateAccount
      else Inr (s\<lparr>accounts := accounts s @ [a]\<rparr>))"

text \<open>Modelled from the spec: \<open>AccountStorage.deleteAccount\<close>, "returns whether a
  record existed; removing a non-existent identity is not an error".\<close>

definition storage_deleteAccount :: "AccountStorage \<Rightarrow> string \<Rightarrow> bool \<times> AccountStorage" where
  "storage_deleteAccount s e =
     (storage_hasAccount s e, s\<lparr>accounts := filter (\<lambda>a. email a \<noteq> e) (accounts s)\<rparr>)"

text \<open>Modelled from the spec: \<open>AccountStorage.getAllAccounts\<close>, "all records in a
  stable order (insertion order)".\<close>

definition storage_getAllAccounts :: "AccountStorage \<Rightarrow> DriveAccount list" where
  "storage_getAllAccounts s = accounts s"

text \<open>Modelled from the spec: \<open>AccountStorage.setCredentials\<close>, "persists, replacing
  any prior value", "overwritten wholesale, never merged". The check that both strings
  are non-empty is made by the caller in \<^verbatim>\<open>cli.ts\<close> (see \<open>handleAccounts\<close>).\<close>

definition storage_setCredentials :: "AccountStorage \<Rightarrow> string \<Rightarrow> string \<Rightarrow> AccountStorage" where
  "storage_setCredentials s cid csecret =
     s\<lparr>credentials := Some \<lparr>clientId = cid, clientSecret = csecret\<rparr>\<rparr>"

text \<open>Modelled from the spec: \<open>AccountStorage.getCredentials\<close>, "returns the stored
  pair or a not-configured signal" (\<open>null\<close>, here \<open>None\<close>).\<close>

definition storage_getCredentials :: "AccountStorage \<Rightarrow> ClientCredentials option" where
  "storage_getCredentials s = credentials s"

section \<open>DriveOAuthFlow\<close>

text \<open>
  \<^verbatim>\<open>drive-oauth-flow.ts\<close> is not among the sources; \<^verbatim>\<open>drive-service.ts\<close> only shows
  \<open>new DriveOAuthFlow(clientId, clientSecret)\<close> and \<open>authorize(manual)\<close>, which yields the
  refresh token or throws. The flow below follows section 4.3 of the specification. What
  the process cannot decide is an input: the random state generated for the session, the
  address of the loopback listener, what the listener receives, the URL the user pastes,
  and the provider's token endpoint.
\<close>

datatype flow_mode = Browser | Manual

datatype flow_phase = Idle | AwaitingRedirect | Exchanging | Complete | Failed

record AuthorizationSession =
  session_state :: string
  redirectEndpoint :: string
  mode :: flow_mode
  phase :: flow_phase
  listener_open :: bool

datatype listener_input = Redirect "(string \<times> string) list" | ListenerTimeout

record exchange_request =
  ex_code :: string
  ex_client :: ClientCredentials
  ex_redirect_uri :: string

record token_response =
  resp_refresh_token :: string
  resp_access_token :: "string option"

record flow_env =
  fresh_state :: string
  loopback :: string
  inbound :: listener_input
  pasted :: string
  token_endpoint :: "exchange_request \<Rightarrow> token_response option"

record flow_result =
  outcome :: "error + string"
  final_session :: AuthorizationSession
  exchange_calls :: "exchange_request list"

text \<open>Splitting a string at every occurrence of a delimiter.\<close>

fun split_on :: "char \<Rightarrow> string \<Rightarrow> string list" where
  "split_on d [] = [[]]"
| "split_on d (c # cs) =
     (if c = d then [] # split_on d cs
      else (case split_on d cs of [] \<Rightarrow> [[c]] | w # ws \<Rightarrow> (c # w) # ws))"

text \<open>Modelled from the spec: "the flow then parses code and state out of the pasted
  URL": the parameters of the query part of a URL, as name and value pairs. Percent
  escapes are left as they are.\<close>

definition parse_query :: "string \<Rightarrow> (string \<times> string) list" where
  "parse_query url =
     (case dropWhile (\<lambda>c. c \<noteq> CHR ''?'') url of
        [] \<Rightarrow> []
      | _ # rest \<Rightarrow>
          map (\<lambda>kv. (takeWhile (\<lambda>c. c \<noteq> CHR ''='') kv, drop 1 (dropWhile (\<lambda>c. c \<noteq> CHR ''='') kv)))
            (filter (\<lambda>kv. kv \<noteq> []) (split_on CHR ''&'' (takeWhile (\<lambda>c. c \<noteq> CHR ''#'') rest))))"

text \<open>Modelled from the spec: step 1, \<open>Idle\<close> to \<open>AwaitingRedirect\<close>. The browser
  variant binds the loopback listener; "no listener is bound" in the manual variant.\<close>

definition flow_begin :: "flow_env \<Rightarrow> bool \<Rightarrow> AuthorizationSession" where
  "flow_begin env manual =
     \<lparr>session_state = fresh_state env, redirectEndpoint = loopback env,
      mode = (if manual then Manual else Browser), phase = AwaitingRedirect,
      listener_open = (\<not> manual)\<rparr>"

text \<open>Modelled from the spec: step 3, obtaining the redirect's parameters: from the
  listener, with a bounded wait ("on timeout fail with AuthorizationTimeout"), or from
  the pasted URL.\<close>

definition await_redirect :: "flow_env \<Rightarrow> AuthorizationSession \<Rightarrow> error + (string \<times> string) list" where
  "await_redirect env sess =
     (case mode sess of
        Manual \<Rightarrow> Inr (parse_query (pasted env))
      | Browser \<Rightarrow>
          (case inbound env of
             ListenerTimeout \<Rightarrow> Inl AuthorizationTimeout
           | Redirect ps \<Rightarrow> Inr ps))"

text \<open>Modelled from the spec: step 3, the checks on the redirect: "If state does not
  match the one generated in step 1, fail with StateMismatch and stop"; "if an error
  parameter is present instead, fail with UserDenied". The specification names no failure
  for a redirect with a matching state and neither a code nor an error; the model
  fails with \<open>MalformedRedirect\<close>.\<close>

definition check_redirect :: "AuthorizationSession \<Rightarrow> (string \<times> string) list \<Rightarrow> error + string" where
  "check_redirect sess ps =
     (if map_of ps ''state'' \<noteq> Some (session_state sess) then Inl StateMismatch
      else if map_of ps ''error'' \<noteq> None then Inl UserDenied
      else (case map_of ps ''code'' of None \<Rightarrow> Inl MalformedRedirect | Some c \<Rightarrow> Inr c))"

text \<open>Modelled from the spec: step 4, "issue a token-exchange request to the provider's
  token endpoint with code, client identity, and the same redirect_uri"; a failure is
  \<open>TokenExchangeFailed\<close> and is not retried. The second component is the list of requests
  issued.\<close>

definition exchange :: "flow_env \<Rightarrow> ClientCredentials \<Rightarrow> AuthorizationSession \<Rightarrow> string
    \<Rightarrow> (error + string) \<times> exchange_request list" where
  "exchange env client sess code =
     (let req = \<lparr>ex_code = code, ex_client = client, ex_redirect_uri = redirectEndpoint sess\<rparr>
      in (case token_endpoint env req of
            None \<Rightarrow> (Inl TokenExchangeFailed, [req])
          | Some r \<Rightarrow> (Inr (resp_refresh_token r), [req])))"

text \<open>Modelled from the spec: step 5, "in all cases close the loopback listener before
  returning".\<close>

definition finish :: "AuthorizationSession \<Rightarrow> error + string \<Rightarrow> exchange_request list \<Rightarrow> flow_result" where
  "finish sess r calls =
     \<lparr>outcome = r,
      final_session = sess\<lparr>phase := (case r of Inl _ \<Rightarrow> Failed | Inr _ \<Rightarrow> Complete),
                            listener_open := False\<rparr>,
      exchange_calls = calls\<rparr>"

text \<open>Modelled from the spec: \<open>DriveOAuthFlow.authorize\<close>, the whole flow of section
  4.3 in either variant.\<close>

definition authorize_flow :: "flow_env \<Rightarrow> ClientCredentials \<Rightarrow> bool \<Rightarrow> flow_result" where
  "authorize_flow env client manual =
     (let s0 = flow_begin env manual
      in (case await_redirect env s0 of
            Inl e \<Rightarrow> finish s0 (Inl e) []
          | Inr ps \<Rightarrow>
              (case check_redirect s0 ps of
                 Inl e \<Rightarrow> finish s0 (Inl e) []
               | Inr code \<Rightarrow>
                   (case exchange env client (s0\<lparr>phase := Exchanging\<rparr>) code of
                      (r, calls) \<Rightarrow> finish (s0\<lparr>phase := Exchanging\<rparr>) r calls))))"

section \<open>DriveService\<close>

text \<open>
  The OAuth2 client of \<^verbatim>\<open>google-auth-library\<close> as \<open>getDriveClient\<close> builds it: the
  three constructor arguments and the credentials set on it. \<open>getDriveClient\<close> sets the
  refresh token and the access token only; the expiry of the access token is a member the
  library fills in when it refreshes. The Drive handle
  \<open>google.drive({version: "v3", auth})\<close> is determined by its client.
\<close>

record OAuth2Client =
  oc_clientId :: string
  oc_clientSecret :: string
  oc_redirectUri :: string
  refresh_token :: string
  access_token :: "string option"
  expiry_date :: "int option"

record DriveService =
  accountStorage :: AccountStorage
  driveClients :: "(string \<times> OAuth2Client) list"

text \<open>
  \<open>addAccount\<close> takes the authorization flow as a parameter: \<open>authorize clientId
  clientSecret manual\<close> stands for \<open>new DriveOAuthFlow(clientId, clientSecret).authorize(manual)\<close>.
  Every network call of \<open>addAccount\<close> happens inside this call, so the third component of
  the result records each time the flow was started.
\<close>

datatype effect = OAuthAuthorize string string bool

definition addAccount :: "(string \<Rightarrow> string \<Rightarrow> bool \<Rightarrow> error + string) \<Rightarrow> DriveService
    \<Rightarrow> string \<Rightarrow> string \<Rightarrow> string \<Rightarrow> bool \<Rightarrow> (error + unit) \<times> DriveService \<times> effect list" where
  "addAccount authorize svc em cid csecret manual =
     (if storage_hasAccount (accountStorage svc) em
      then (Inl (Error (''Account '' @ [sq] @ em @ [sq] @ '' already exists'')), svc, [])
      else (case authorize cid csecret manual of
              Inl e \<Rightarrow> (Inl e, svc, [OAuthAuthorize cid csecret manual])
            | Inr token \<Rightarrow>
                (case storage_addAccount (accountStorage svc)
                        \<lparr>email = em,
                         oauth2 = \<lparr>clientId = cid, clientSecret = csecret,
                                   refreshToken = token, accessToken = None\<rparr>\<rparr> of
                   Inl e \<Rightarrow> (Inl e, svc, [OAuthAuthorize cid csecret manual])
                 | Inr s' \<Rightarrow> (Inr (), svc\<lparr>accountStorage := s'\<rparr>,
                              [OAuthAuthorize cid csecret manual]))))"

definition deleteAccount :: "DriveService \<Rightarrow> string \<Rightarrow> bool \<times> DriveService" where
  "deleteAccount svc em =
     (let clients = AList.delete em (driveClients svc)
      in (case storage_deleteAccount (accountStorage svc) em of
            (existed, s') \<Rightarrow> (existed, svc\<lparr>accountStorage := s', driveClients := clients\<rparr>)))"

definition listAccounts :: "DriveService \<Rightarrow> DriveAccount list" where
  "listAccounts svc = storage_getAllAccounts (accountStorage svc)"

definition setCredentials :: "DriveService \<Rightarrow> string \<Rightarrow> string \<Rightarrow> DriveService" where
  "setCredentials svc cid csecret =
     svc\<lparr>accountStorage := storage_setCredentials (accountStorage svc) cid csecret\<rparr>"

definition getCredentials :: "DriveService \<Rightarrow> ClientCredentials option" where
  "getCredentials svc = storage_getCredentials (accountStorage svc)"

definition getDriveClient :: "DriveService \<Rightarrow> string \<Rightarrow> (error + OAuth2Client) \<times> DriveService" where
  "getDriveClient svc em =
     (case map_of (driveClients svc) em of
        Some drive \<Rightarrow> (Inr drive, svc)
      | None \<Rightarrow>
          (case storage_getAccount (accountStorage svc) em of
             None \<Rightarrow> (Inl (Error (''Account '' @ [sq] @ em @ [sq] @ '' not found'')), svc)
           | Some account \<Rightarrow>
               (let drive = \<lparr>oc_clientId = clientId (oauth2 account),
                             oc_clientSecret = clientSecret (oauth2 account),
                             oc_redirectUri = ''http://localhost'',
                             refresh_token = refreshToken (oauth2 account),
                             access_token = accessToken (oauth2 account),
                             expiry_date = None\<rparr>
                in (Inr drive, svc\<lparr>driveClients := AList.update em drive (driveClients svc)\<rparr>))))"

subsection \<open>Remote calls: listFiles and search\<close>

text \<open>
  The parameters of \<open>drive.files.list\<close>, the data of its response and the result the
  service returns. A file is the list of its fields. Page sizes are integers here: a
  \<open>maxResults\<close> that is \<open>NaN\<close> or fractional is outside the model.
\<close>

record FilesListParams =
  param_q :: "string option"
  param_pageSize :: int
  param_pageToken :: "string option"
  param_orderBy :: "string option"
  param_fields :: string
  supportsAllDrives :: bool
  includeItemsFromAllDrives :: bool

type_synonym DriveFile = "(string \<times> string) list"

record FilesListData =
  data_files :: "DriveFile list option"
  data_nextPageToken :: "string option"

record FileListResult =
  files :: "DriveFile list"
  nextPageToken :: "string option"

record ListOptions =
  opt_query :: "string option"
  opt_folderId :: "string option"
  opt_maxResults :: "int option"
  opt_pageToken :: "string option"
  opt_orderBy :: "string option"

text \<open>
  The remote API, with the OAuth2 client library in front of it, is a parameter:
  \<open>api drive params\<close> answers with the response data or throws, returns the client as
  the call left it (the library may have refreshed the client's access token), and lists
  the refresh grants the library issued to the provider's token endpoint during the call,
  each by the refresh token it presented.
\<close>

type_synonym files_list_api =
  "OAuth2Client \<Rightarrow> FilesListParams \<Rightarrow> (error + FilesListData) \<times> OAuth2Client \<times> string list"

definition list_fields :: string where
  "list_fields = ''nextPageToken, files(id, name, mimeType, size, modifiedTime, parents, webViewLink, driveId)''"

text \<open>The query string \<open>q\<close> that \<open>listFiles\<close> builds (lines 98 to 106).\<close>

definition listFiles_q :: "string option \<Rightarrow> string option \<Rightarrow> string" where
  "listFiles_q query folderId =
     (let q0 = or_empty query;
          q1 = (if truthy folderId
                then (let folderQuery = [sq] @ or_empty folderId @ [sq] @ '' in parents''
                      in (if q0 \<noteq> [] then q0 @ '' and '' @ folderQuery else folderQuery))
                else q0)
      in (if \<not> js_includes q1 ''trashed''
          then (if q1 \<noteq> [] then q1 @ '' and trashed = false'' else ''trashed = false'')
          else q1))"

definition listFiles_params :: "ListOptions \<Rightarrow> FilesListParams" where
  "listFiles_params opts =
     (let q = listFiles_q (opt_query opts) (opt_folderId opts)
      in \<lparr>param_q = (if q \<noteq> [] then Some q else None),
          param_pageSize = (case opt_maxResults opts of
                              None \<Rightarrow> 20
                            | Some n \<Rightarrow> (if n = 0 then 20 else n)),
          param_pageToken = opt_pageToken opts,
          param_orderBy = Some (if truthy (opt_orderBy opts) then or_empty (opt_orderBy opts)
                                else ''modifiedTime desc''),
          param_fields = list_fields,
          supportsAllDrives = True,
          includeItemsFromAllDrives = True\<rparr>)"

definition to_result :: "FilesListData \<Rightarrow> FileListResult" where
  "to_result d =
     \<lparr>files = (case data_files d of None \<Rightarrow> [] | Some fs \<Rightarrow> fs),
      nextPageToken = (if truthy (data_nextPageToken d) then data_nextPageToken d else None)\<rparr>"

text \<open>
  A remote call: get the client for the account, call the API with it, and keep the
  client object (which the call may have changed) in \<open>driveClients\<close>, where
  \<open>getDriveClient\<close> put it. The third component of the result is the list of refresh
  grants issued during the call; none is issued when there is no client.
\<close>

definition remote_list :: "files_list_api \<Rightarrow> DriveService \<Rightarrow> string \<Rightarrow> FilesListParams
    \<Rightarrow> (error + FileListResult) \<times> DriveService \<times> string list" where
  "remote_list api svc em params =
     (case getDriveClient svc em of
        (Inl e, svc1) \<Rightarrow> (Inl e, svc1, [])
      | (Inr drive, svc1) \<Rightarrow>
          (case api drive params of
             (r, drive', grants) \<Rightarrow>
               (let svc2 = svc1\<lparr>driveClients := AList.update em drive' (driveClients svc1)\<rparr>
                in (case r of
                      Inl e \<Rightarrow> (Inl e, svc2, grants)
                    | Inr d \<Rightarrow> (Inr (to_result d), svc2, grants)))))"

definition listFiles :: "files_list_api \<Rightarrow> DriveService \<Rightarrow> string \<Rightarrow> ListOptions
    \<Rightarrow> (error + FileListResult) \<times> DriveService \<times> string list" where
  "listFiles api svc em opts = remote_list api svc em (listFiles_params opts)"

text \<open>The query string of \<open>search\<close> (line 389).\<close>

definition search_q :: "string \<Rightarrow> string" where
  "search_q query =
     ''fullText contains '' @ [sq] @ replace_char_global sq [bs, sq] query @ [sq]
       @ '' and trashed = false''"

definition search_params :: "string \<Rightarrow> int option \<Rightarrow> string option \<Rightarrow> FilesListParams" where
  "search_params query maxResults pageToken =
     \<lparr>param_q = Some (search_q query),
      param_pageSize = (case maxResults of None \<Rightarrow> 20 | Some n \<Rightarrow> n),
      param_pageToken = pageToken,
      param_orderBy = None,
      param_fields = list_fields,
      supportsAllDrives = True,
      includeItemsFromAllDrives = True\<rparr>"

definition search :: "files_list_api \<Rightarrow> DriveService \<Rightarrow> string \<Rightarrow> string \<Rightarrow> int option
    \<Rightarrow> string option \<Rightarrow> (error + FileListResult) \<times> DriveService \<times> string list" where
  "search api svc em query maxResults pageToken =
     remote_list api svc em (search_params query maxResults pageToken)"

text \<open>
  The escaping as the specification of \<open>search\<close> words it: every single quote becomes a
  backslash followed by a single quote, every other character stays.
\<close>

definition escape :: "string \<Rightarrow> string" where
  "escape s = concat (map (\<lambda>c. if c = sq then [bs, sq] else [c]) s)"

subsection \<open>The OAuth2 client library\<close>



section \<open>The command line: accounts\<close>

text \<open>
  A command ends in one of three ways: it completes, having printed lines;
  \<open>error(msg)\<close> prints the message and exits with status 1; or an exception leaves the
  handler (and \<open>main\<close> turns it into \<open>error\<close>).
\<close>

datatype cli_outcome = Completed "string list" | ErrorExit string | Threw error

text \<open>
  The parsed credentials file, for the members the handler reads: each section and each
  string may be absent. Reading and parsing the file is a parameter, which may throw.
\<close>

record ClientSection =
  client_id :: "string option"
  client_secret :: "string option"

record CredsFile =
  installed :: "ClientSection option"
  web :: "ClientSection option"
  file_clientId :: "string option"
  file_clientSecret :: "string option"

text \<open>\<open>creds.installed || creds.web\<close>: an object is truthy.\<close>

definition installed_or_web :: "CredsFile \<Rightarrow> ClientSection option" where
  "installed_or_web creds = (case installed creds of Some i \<Rightarrow> Some i | None \<Rightarrow> web creds)"

definition resolve_clientId :: "CredsFile \<Rightarrow> string option" where
  "resolve_clientId creds =
     js_or (case installed_or_web creds of None \<Rightarrow> None | Some i \<Rightarrow> client_id i)
           (file_clientId creds)"

definition resolve_clientSecret :: "CredsFile \<Rightarrow> string option" where
  "resolve_clientSecret creds =
     js_or (case installed_or_web creds of None \<Rightarrow> None | Some i \<Rightarrow> client_secret i)
           (file_clientSecret creds)"

definition handleAccounts :: "(string \<Rightarrow> error + CredsFile)
    \<Rightarrow> (string \<Rightarrow> string \<Rightarrow> bool \<Rightarrow> error + string)
    \<Rightarrow> DriveService \<Rightarrow> string list \<Rightarrow> cli_outcome \<times> DriveService \<times> effect list" where
  "handleAccounts readCreds authorize svc args =
     (let action = arg_at args 0 in
      if \<not> truthy action then (ErrorExit ''Missing action: list|add|remove|credentials'', svc, [])
      else if action = Some ''list'' then
        (let accs = listAccounts svc in
         (if accs = [] then (Completed [''No accounts configured''], svc, [])
          else (Completed (map email accs), svc, [])))
      else if action = Some ''credentials'' then
        (let credFile = arg_at args 1 in
         if \<not> truthy credFile
         then (ErrorExit ''Usage: accounts credentials <credentials.json>'', svc, [])
         else (case readCreds (or_empty credFile) of
                 Inl e \<Rightarrow> (Threw e, svc, [])
               | Inr creds \<Rightarrow>
                   (let cid = resolve_clientId creds; csecret = resolve_clientSecret creds in
                    if \<not> truthy cid \<or> \<not> truthy csecret
                    then (ErrorExit ''Invalid credentials file'', svc, [])
                    else (Completed [''Credentials saved''],
                          setCredentials svc (or_empty cid) (or_empty csecret), []))))
      else if action = Some ''add'' then
        (let manual = (''--manual'' \<in> set args);
             filtered = filter (\<lambda>a. a \<noteq> ''--manual'') (drop 1 args);
             em = arg_at filtered 0 in
         if \<not> truthy em then (ErrorExit ''Usage: accounts add <email> [--manual]'', svc, [])
         else (case getCredentials svc of
                 None \<Rightarrow>
                   (ErrorExit ''No credentials configured. Run: gdcli accounts credentials <credentials.json>'',
                    svc, [])
               | Some creds \<Rightarrow>
                   (case addAccount authorize svc (or_empty em) (clientId creds) (clientSecret creds) manual of
                      (Inl e, svc', tr) \<Rightarrow> (Threw e, svc', tr)
                    | (Inr _, svc', tr) \<Rightarrow>
                        (Completed [''Account '' @ [sq] @ or_empty em @ [sq] @ '' added''], svc', tr))))
      else if action = Some ''remove'' then
        (let em = arg_at args 1 in
         if \<not> truthy em then (ErrorExit ''Usage: accounts remove <email>'', svc, [])
         else (case deleteAccount svc (or_empty em) of
                 (deleted, svc') \<Rightarrow>
                   (Completed [if deleted then ''Removed '' @ [sq] @ or_empty em @ [sq]
                               else ''Not found: '' @ or_empty em], svc', [])))
      else (ErrorExit (''Unknown action: '' @ or_empty action), svc, []))"

section \<open>The stored refresh tokens\<close>

text \<open>Every stored record has a non-empty refresh token.\<close>

definition refresh_tokens_nonempty :: "DriveService \<Rightarrow> bool" where
  "refresh_tokens_nonempty svc = list_all (\<lambda>a. refreshToken (oauth2 a) \<noteq> []) (accounts (accountStorage svc))"

section \<open>Example states\<close>

text \<open>Concrete stores, files and readers, used to run the theorems below.\<close>

definition alice :: DriveAccount where
  "alice = \<lparr>email = ''alice@example.com'',
            oauth2 = \<lparr>clientId = ''abc'', clientSecret = ''xyz'', refreshToken = ''rt-1'', accessToken = None\<rparr>\<rparr>"

definition empty_service :: DriveService where
  "empty_service = \<lparr>accountStorage = \<lparr>accounts = [], credentials = None\<rparr>, driveClients = []\<rparr>"

definition alice_service :: DriveService where
  "alice_service = \<lparr>accountStorage = \<lparr>accounts = [alice], credentials = Some \<lparr>clientId = ''abc'', clientSecret = ''xyz''\<rparr>\<rparr>,
      driveClients = []\<rparr>"

definition installed_file :: CredsFile where
  "installed_file = \<lparr>installed = Some \<lparr>client_id = Some ''abc'', client_secret = Some ''xyz''\<rparr>,
      web = None, file_clientId = None, file_clientSecret = None\<rparr>"

definition broken_file :: CredsFile where
  "broken_file = \<lparr>installed = Some \<lparr>client_id = Some ''abc'', client_secret = Some []\<rparr>,
      web = None, file_clientId = None, file_clientSecret = None\<rparr>"

definition example_reader :: "string \<Rightarrow> error + CredsFile" where
  "example_reader f = (if f = ''creds.json'' then Inr installed_file
                       else if f = ''bad.json'' then Inr broken_file
                       else Inl (Error ''ENOENT''))"

definition forged_env :: flow_env where
  "forged_env = \<lparr>fresh_state = ''s3cr3t'', loopback = ''http://localhost'',
      inbound = Redirect [(''code'', ''CODE123''), (''state'', ''forged'')],
      pasted = ''http://localhost/?code=CODE123&state=forged'',
      token_endpoint = (\<lambda>r. Some \<lparr>resp_refresh_token = ''rt-1'', resp_access_token = None\<rparr>)\<rparr>"

definition honest_env :: flow_env where
  "honest_env = \<lparr>fresh_state = ''s3cr3t'', loopback = ''http://localhost'',
      inbound = Redirect [(''code'', ''CODE123''), (''state'', ''s3cr3t'')],
      pasted = ''http://localhost/?code=CODE123&state=s3cr3t'',
      token_endpoint = (\<lambda>r. Some \<lparr>resp_refresh_token = ''rt-1'', resp_access_token = None\<rparr>)\<rparr>"



text \<open>A remote API that answers with the query it received, as the next page token.\<close>

definition echo_api :: files_list_api where
  "echo_api drive params =
     (Inr \<lparr>data_files = None, data_nextPageToken = param_q params\<rparr>, drive, [])"

text \<open>The client that \<open>getDriveClient\<close> builds for alice.\<close>

definition alice_drive :: OAuth2Client where
  "alice_drive = \<lparr>oc_clientId = ''abc'', oc_clientSecret = ''xyz'',
      oc_redirectUri = ''http://localhost'', refresh_token = ''rt-1'', access_token = None,
      expiry_date = None\<rparr>"

definition folder_trashed :: ListOptions where
  "folder_trashed = \<lparr>opt_query = None, opt_folderId = Some ''trashed'', opt_maxResults = None,
      opt_pageToken = None, opt_orderBy = None\<rparr>"


section \<open>Strings: what the JavaScript functions compute\<close>

lemma starts_with_prefix: "starts_with s p \<longleftrightarrow> prefix p s"
  by (induction s p rule: starts_with.induct) auto

lemma js_includes_sublist: "js_includes s p \<longleftrightarrow> sublist p s"
  by (induction s) (auto simp: starts_with_prefix sublist_Cons_right)

lemma sublist_split_at:
  assumes "c \<notin> set p"
  shows "sublist p (xs @ c # ys) \<longleftrightarrow> sublist p xs \<or> sublist p ys"
proof
  assume "sublist p (xs @ c # ys)"
  then obtain ps ss where e: "xs @ c # ys = ps @ p @ ss"
    by (auto simp: sublist_def)
  then obtain us where "(xs = ps @ us \<and> us @ c # ys = p @ ss) \<or> (xs @ us = ps \<and> c # ys = us @ p @ ss)"
    by (auto simp: append_eq_append_conv2)
  then show "sublist p xs \<or> sublist p ys"
  proof
    assume a: "xs = ps @ us \<and> us @ c # ys = p @ ss"
    then obtain vs where "(us = p @ vs \<and> vs @ c # ys = ss) \<or> (us @ vs = p \<and> c # ys = vs @ ss)"
      by (auto simp: append_eq_append_conv2)
    then show ?thesis
    proof
      assume "us = p @ vs \<and> vs @ c # ys = ss"
      with a have "xs = ps @ p @ vs" by simp
      then show ?thesis by (auto simp: sublist_def)
    next
      assume b: "us @ vs = p \<and> c # ys = vs @ ss"
      show ?thesis
      proof (cases vs)
        case Nil
        with a b have "xs = ps @ p @ []" by simp
        then show ?thesis unfolding sublist_def by blast
      next
        case (Cons v vs')
        with b have "c \<in> set p" by auto
        with assms show ?thesis by simp
      qed
    qed
  next
    assume a: "xs @ us = ps \<and> c # ys = us @ p @ ss"
    show ?thesis
    proof (cases us)
      case Nil
      with a have "c # ys = p @ ss" by simp
      with assms have "p = []" by (cases p) auto
      then show ?thesis by simp
    next
      case (Cons u us')
      with a have "ys = us' @ p @ ss" by simp
      then show ?thesis by (auto simp: sublist_def)
    qed
  qed
next
  assume "sublist p xs \<or> sublist p ys"
  then show "sublist p (xs @ c # ys)"
    by (metis sublist_appendI sublist_order.order.trans sublist_Cons_right append_Cons append_Nil sublist_append_rightI sublist_append_leftI  sublist_order.order_refl)
qed

lemma replace_is_escape: "replace_char_global sq [bs, sq] s = escape s"
  by (induction s) (auto simp: escape_def)

section \<open>The account store\<close>

lemma hasAccount_iff_getAccount: "storage_hasAccount s e \<longleftrightarrow> storage_getAccount s e \<noteq> None"
  by (auto simp: storage_hasAccount_def storage_getAccount_def find_None_iff)

lemma getAccount_after_delete: "storage_getAccount (snd (storage_deleteAccount s e)) e = None"
  by (simp add: storage_deleteAccount_def storage_getAccount_def find_None_iff)

lemma hasAccount_after_add:
  "storage_addAccount s a = Inr s' \<Longrightarrow> storage_hasAccount s' (email a)"
  by (auto simp: storage_addAccount_def storage_hasAccount_def split: if_splits)

text \<open>
  Claim C1: for every identity that already has a record in the account store,
  \<open>addAccount\<close> fails with the error "Account '...' already exists" (the duplicate-account
  failure), the service is unchanged and the authorization flow was not started: the
  result does not depend on the flow, and no call of it is recorded. In particular a
  second add after a successful one fails in this way.
\<close>

theorem addAccount_duplicate_rejected:
  "(storage_getAccount (accountStorage svc) em = Some a
      \<longrightarrow> addAccount authorize svc em cid csecret manual
            = (Inl (Error (''Account '' @ [sq] @ em @ [sq] @ '' already exists'')), svc, []))
   \<and> (addAccount authorize svc em cid csecret manual = (Inr (), svc', tr)
      \<longrightarrow> addAccount authorize2 svc' em cid2 csecret2 manual2
            = (Inl (Error (''Account '' @ [sq] @ em @ [sq] @ '' already exists'')), svc', []))"
proof (intro conjI impI)
  assume "storage_getAccount (accountStorage svc) em = Some a"
  then have "storage_hasAccount (accountStorage svc) em"
    by (simp add: hasAccount_iff_getAccount)
  then show "addAccount authorize svc em cid csecret manual
            = (Inl (Error (''Account '' @ [sq] @ em @ [sq] @ '' already exists'')), svc, [])"
    by (simp add: addAccount_def)
next
  assume "addAccount authorize svc em cid csecret manual = (Inr (), svc', tr)"
  then have "storage_hasAccount (accountStorage svc') em"
    by (auto simp: addAccount_def split: if_splits sum.splits dest: hasAccount_after_add)
  then show "addAccount authorize2 svc' em cid2 csecret2 manual2
            = (Inl (Error (''Account '' @ [sq] @ em @ [sq] @ '' already exists'')), svc', [])"
    by (simp add: addAccount_def)
qed

theorem addAccount_duplicate_rejected_witness:
  "storage_getAccount (accountStorage alice_service) ''alice@example.com'' = Some alice
   \<and> addAccount (\<lambda>c s m. Inr ''rt-2'') alice_service ''alice@example.com'' ''abc'' ''xyz'' False
       = (Inl (Error (''Account '' @ [sq] @ ''alice@example.com'' @ [sq] @ '' already exists'')), alice_service, [])
   \<and> addAccount (\<lambda>c s m. Inr ''rt-1'') empty_service ''alice@example.com'' ''abc'' ''xyz'' True
       = (Inr (), empty_service\<lparr>accountStorage := \<lparr>accounts = [alice], credentials = None\<rparr>\<rparr>,
          [OAuthAuthorize ''abc'' ''xyz'' True])
   \<and> addAccount (\<lambda>c s m. Inr ''rt-2'') (empty_service\<lparr>accountStorage := \<lparr>accounts = [alice], credentials = None\<rparr>\<rparr>)
         ''alice@example.com'' ''abc'' ''xyz'' False
       = (Inl (Error (''Account '' @ [sq] @ ''alice@example.com'' @ [sq] @ '' already exists'')),
          empty_service\<lparr>accountStorage := \<lparr>accounts = [alice], credentials = None\<rparr>\<rparr>, [])"
proof -
  have g: "storage_getAccount (accountStorage alice_service) ''alice@example.com'' = Some alice"
    by (simp add: storage_getAccount_def alice_service_def alice_def)
  have a: "addAccount (\<lambda>c s m. Inr ''rt-1'') empty_service ''alice@example.com'' ''abc'' ''xyz'' True
       = (Inr (), empty_service\<lparr>accountStorage := \<lparr>accounts = [alice], credentials = None\<rparr>\<rparr>,
          [OAuthAuthorize ''abc'' ''xyz'' True])"
    by (simp add: addAccount_def storage_hasAccount_def storage_addAccount_def empty_service_def alice_def)
  from g a addAccount_duplicate_rejected [of alice_service "''alice@example.com''" alice
      "\<lambda>c s m. Inr ''rt-2''" "''abc''" "''xyz''" False alice_service "[]" "\<lambda>c s m. Inr ''rt-2''" "''abc''" "''xyz''" False]
    addAccount_duplicate_rejected [of empty_service "''alice@example.com''" alice
      "\<lambda>c s m. Inr ''rt-1''" "''abc''" "''xyz''" True
      "empty_service\<lparr>accountStorage := \<lparr>accounts = [alice], credentials = None\<rparr>\<rparr>"
      "[OAuthAuthorize ''abc'' ''xyz'' True]" "\<lambda>c s m. Inr ''rt-2''" "''abc''" "''xyz''" False]
  show ?thesis by simp
qed

text \<open>
  Claim C5: for every identity \<open>i\<close>, \<open>deleteAccount\<close> returns true exactly when a record
  for \<open>i\<close> existed, and afterwards looking \<open>i\<close> up reports not-found, whether or not it
  existed. Removing an identity that is not there is not an error: the command
  \<open>accounts remove i\<close> completes and prints "Not found: i".
\<close>

theorem deleteAccount_reports_and_removes:
  "fst (deleteAccount svc i) = (storage_getAccount (accountStorage svc) i \<noteq> None)
   \<and> storage_getAccount (accountStorage (snd (deleteAccount svc i))) i = None
   \<and> (i \<noteq> [] \<longrightarrow>
        handleAccounts readCreds authorize svc [''remove'', i]
          = (Completed [if storage_getAccount (accountStorage svc) i \<noteq> None
                        then ''Removed '' @ [sq] @ i @ [sq] else ''Not found: '' @ i],
             snd (deleteAccount svc i), []))"
proof (intro conjI impI)
  show "fst (deleteAccount svc i) = (storage_getAccount (accountStorage svc) i \<noteq> None)"
    by (simp add: deleteAccount_def storage_deleteAccount_def hasAccount_iff_getAccount)
  show "storage_getAccount (accountStorage (snd (deleteAccount svc i))) i = None"
    using getAccount_after_delete [of "accountStorage svc" i]
    by (simp add: deleteAccount_def split_def)
  assume "i \<noteq> []"
  then show "handleAccounts readCreds authorize svc [''remove'', i]
          = (Completed [if storage_getAccount (accountStorage svc) i \<noteq> None
                        then ''Removed '' @ [sq] @ i @ [sq] else ''Not found: '' @ i],
             snd (deleteAccount svc i), [])"
    by (simp add: handleAccounts_def arg_at_def or_empty_def deleteAccount_def
        storage_deleteAccount_def hasAccount_iff_getAccount)
qed

theorem deleteAccount_reports_and_removes_witness:
  "fst (deleteAccount alice_service ''alice@example.com'')
   \<and> storage_getAccount (accountStorage (snd (deleteAccount alice_service ''alice@example.com''))) ''alice@example.com'' = None
   \<and> \<not> fst (deleteAccount alice_service ''bob@example.com'')
   \<and> storage_getAccount (accountStorage (snd (deleteAccount alice_service ''bob@example.com''))) ''bob@example.com'' = None
   \<and> handleAccounts (\<lambda>f. Inl (Error ''no file'')) (\<lambda>c s m. Inl UserDenied) alice_service [''remove'', ''bob@example.com'']
        = (Completed [''Not found: bob@example.com''], alice_service, [])
   \<and> handleAccounts (\<lambda>f. Inl (Error ''no file'')) (\<lambda>c s m. Inl UserDenied) alice_service [''remove'', ''alice@example.com'']
        = (Completed [''Removed '' @ [sq] @ ''alice@example.com'' @ [sq]],
           alice_service\<lparr>accountStorage := \<lparr>accounts = [], credentials = Some \<lparr>clientId = ''abc'', clientSecret = ''xyz''\<rparr>\<rparr>\<rparr>, [])"
proof -
  have a: "storage_getAccount (accountStorage alice_service) ''alice@example.com'' = Some alice"
    by (simp add: storage_getAccount_def alice_service_def alice_def)
  have b: "storage_getAccount (accountStorage alice_service) ''bob@example.com'' = None"
    by (simp add: storage_getAccount_def alice_service_def alice_def)
  have c: "snd (deleteAccount alice_service ''alice@example.com'')
      = alice_service\<lparr>accountStorage := \<lparr>accounts = [], credentials = Some \<lparr>clientId = ''abc'', clientSecret = ''xyz''\<rparr>\<rparr>\<rparr>"
    by (simp add: deleteAccount_def storage_deleteAccount_def alice_service_def alice_def)
  have d: "snd (deleteAccount alice_service ''bob@example.com'') = alice_service"
    by (simp add: deleteAccount_def storage_deleteAccount_def alice_service_def alice_def)
  from a b c d
    deleteAccount_reports_and_removes [of alice_service "''alice@example.com''"
      "\<lambda>f. Inl (Error ''no file'')" "\<lambda>c s m. Inl UserDenied"]
    deleteAccount_reports_and_removes [of alice_service "''bob@example.com''"
      "\<lambda>f. Inl (Error ''no file'')" "\<lambda>c s m. Inl UserDenied"]
  show ?thesis by simp
qed

section \<open>Client credentials\<close>

text \<open>
  Claim C6: when no client credentials are stored, \<open>getCredentials\<close> returns the
  not-configured signal (\<open>None\<close>, the source's \<open>null\<close>), and every \<open>accounts add\<close> command
  ends in \<open>error(...)\<close> with the store unchanged and the authorization flow not started:
  with the message "No credentials configured. ..." when an email is given, and with the
  usage message when none is.
\<close>

theorem add_without_credentials_fails_first:
  assumes "credentials (accountStorage svc) = None"
  shows "getCredentials svc = None
    \<and> handleAccounts readCreds authorize svc (''add'' # rest)
        = (ErrorExit (if truthy (arg_at (filter (\<lambda>a. a \<noteq> ''--manual'') rest) 0)
                      then ''No credentials configured. Run: gdcli accounts credentials <credentials.json>''
                      else ''Usage: accounts add <email> [--manual]''),
           svc, [])"
  using assms
  by (simp add: getCredentials_def storage_getCredentials_def handleAccounts_def arg_at_def Let_def)

theorem add_without_credentials_fails_first_witness:
  "credentials (accountStorage empty_service) = None
   \<and> getCredentials empty_service = None
   \<and> handleAccounts (\<lambda>f. Inl (Error ''no file'')) (\<lambda>c s m. Inr ''rt-1'') empty_service
        [''add'', ''alice@example.com'', ''--manual'']
      = (ErrorExit ''No credentials configured. Run: gdcli accounts credentials <credentials.json>'',
         empty_service, [])"
proof -
  have h: "credentials (accountStorage empty_service) = None"
    by (simp add: empty_service_def)
  from h add_without_credentials_fails_first [OF h, of "\<lambda>f. Inl (Error ''no file'')" "\<lambda>c s m. Inr ''rt-1''"
      "[''alice@example.com'', ''--manual'']"]
  show ?thesis by (simp add: arg_at_def)
qed

lemma setCredentials_get:
  "getCredentials (setCredentials svc cid csecret) = Some \<lparr>clientId = cid, clientSecret = csecret\<rparr>"
  by (simp add: getCredentials_def setCredentials_def storage_getCredentials_def storage_setCredentials_def)

lemma setCredentials_overwrites:
  "setCredentials (setCredentials svc cid0 csecret0) cid csecret = setCredentials svc cid csecret"
  by (simp add: setCredentials_def storage_setCredentials_def)

lemma credentials_command:
  assumes "readCreds credFile = Inr creds" "credFile \<noteq> []"
  shows "handleAccounts readCreds authorize svc [''credentials'', credFile] =
     (if truthy (resolve_clientId creds) \<and> truthy (resolve_clientSecret creds)
      then (Completed [''Credentials saved''],
            setCredentials svc (or_empty (resolve_clientId creds)) (or_empty (resolve_clientSecret creds)), [])
      else (ErrorExit ''Invalid credentials file'', svc, []))"
  using assms by (simp add: handleAccounts_def arg_at_def Let_def or_empty_def)

text \<open>
  Claim C7: the command \<open>accounts credentials <file>\<close> checks that the client id and the
  client secret it resolves from the file are both non-empty; if so it stores exactly that
  pair, whatever was stored before, and touches nothing else, and running it again leaves
  the state as it is; otherwise it ends in \<open>error("Invalid credentials file")\<close> with the
  store unchanged. \<open>setCredentials\<close> overwrites: the result does not depend on the pair
  stored before.
\<close>

theorem set_credentials_validates_and_replaces:
  assumes "readCreds credFile = Inr creds" "credFile \<noteq> []"
  shows "(truthy (resolve_clientId creds) \<and> truthy (resolve_clientSecret creds) \<longrightarrow>
            (\<exists>cid csecret svc'. cid \<noteq> [] \<and> csecret \<noteq> []
               \<and> resolve_clientId creds = Some cid \<and> resolve_clientSecret creds = Some csecret
               \<and> handleAccounts readCreds authorize svc [''credentials'', credFile]
                    = (Completed [''Credentials saved''], svc', [])
               \<and> getCredentials svc' = Some \<lparr>clientId = cid, clientSecret = csecret\<rparr>
               \<and> svc' = svc\<lparr>accountStorage := (accountStorage svc)
                                 \<lparr>credentials := Some \<lparr>clientId = cid, clientSecret = csecret\<rparr>\<rparr>\<rparr>
               \<and> handleAccounts readCreds authorize svc' [''credentials'', credFile]
                    = (Completed [''Credentials saved''], svc', [])))
       \<and> (\<not> (truthy (resolve_clientId creds) \<and> truthy (resolve_clientSecret creds)) \<longrightarrow>
            handleAccounts readCreds authorize svc [''credentials'', credFile]
              = (ErrorExit ''Invalid credentials file'', svc, []))
       \<and> setCredentials (setCredentials svc cid0 csecret0) cid1 csecret1 = setCredentials svc cid1 csecret1"
proof (intro conjI impI)
  assume t: "truthy (resolve_clientId creds) \<and> truthy (resolve_clientSecret creds)"
  then obtain cid csecret where r: "resolve_clientId creds = Some cid" "resolve_clientSecret creds = Some csecret"
      and n: "cid \<noteq> []" "csecret \<noteq> []"
    by (cases "resolve_clientId creds"; cases "resolve_clientSecret creds") auto
  let ?svc' = "setCredentials svc cid csecret"
  have 1: "handleAccounts readCreds authorize svc [''credentials'', credFile] = (Completed [''Credentials saved''], ?svc', [])"
    using t r by (simp add: credentials_command [of readCreds credFile creds, OF assms] or_empty_def)
  have 2: "handleAccounts readCreds authorize ?svc' [''credentials'', credFile] = (Completed [''Credentials saved''], ?svc', [])"
    using t r by (simp add: credentials_command [of readCreds credFile creds, OF assms] or_empty_def setCredentials_overwrites)
  have 3: "?svc' = svc\<lparr>accountStorage := (accountStorage svc)
                                 \<lparr>credentials := Some \<lparr>clientId = cid, clientSecret = csecret\<rparr>\<rparr>\<rparr>"
    by (simp add: setCredentials_def storage_setCredentials_def)
  show "\<exists>cid csecret svc'. cid \<noteq> [] \<and> csecret \<noteq> []
               \<and> resolve_clientId creds = Some cid \<and> resolve_clientSecret creds = Some csecret
               \<and> handleAccounts readCreds authorize svc [''credentials'', credFile]
                    = (Completed [''Credentials saved''], svc', [])
               \<and> getCredentials svc' = Some \<lparr>clientId = cid, clientSecret = csecret\<rparr>
               \<and> svc' = svc\<lparr>accountStorage := (accountStorage svc)
                                 \<lparr>credentials := Some \<lparr>clientId = cid, clientSecret = csecret\<rparr>\<rparr>\<rparr>
               \<and> handleAccounts readCreds authorize svc' [''credentials'', credFile]
                    = (Completed [''Credentials saved''], svc', [])"
    using n r 1 2 3 setCredentials_get [of svc cid csecret] by metis
next
  assume "\<not> (truthy (resolve_clientId creds) \<and> truthy (resolve_clientSecret creds))"
  then show "handleAccounts readCreds authorize svc [''credentials'', credFile]
              = (ErrorExit ''Invalid credentials file'', svc, [])"
    by (simp add: credentials_command [of readCreds credFile creds, OF assms])
next
  show "setCredentials (setCredentials svc cid0 csecret0) cid1 csecret1 = setCredentials svc cid1 csecret1"
    by (rule setCredentials_overwrites)
qed

theorem set_credentials_validates_and_replaces_witness:
  "example_reader ''creds.json'' = Inr installed_file
   \<and> ''creds.json'' \<noteq> []
   \<and> truthy (resolve_clientId installed_file) \<and> truthy (resolve_clientSecret installed_file)
   \<and> handleAccounts example_reader (\<lambda>c s m. Inl UserDenied) empty_service [''credentials'', ''creds.json'']
      = (Completed [''Credentials saved''],
         empty_service\<lparr>accountStorage := \<lparr>accounts = [], credentials = Some \<lparr>clientId = ''abc'', clientSecret = ''xyz''\<rparr>\<rparr>\<rparr>, [])
   \<and> example_reader ''bad.json'' = Inr broken_file
   \<and> ''bad.json'' \<noteq> []
   \<and> \<not> (truthy (resolve_clientId broken_file) \<and> truthy (resolve_clientSecret broken_file))
   \<and> handleAccounts example_reader (\<lambda>c s m. Inl UserDenied) alice_service [''credentials'', ''bad.json'']
      = (ErrorExit ''Invalid credentials file'', alice_service, [])"
proof -
  have a: "example_reader ''creds.json'' = Inr installed_file"
    by (simp add: example_reader_def)
  have b: "example_reader ''bad.json'' = Inr broken_file"
    by (simp add: example_reader_def)
  have n: "''creds.json'' \<noteq> []" "''bad.json'' \<noteq> []" by simp_all
  have i: "resolve_clientId installed_file = Some ''abc''" "resolve_clientSecret installed_file = Some ''xyz''"
    by (simp_all add: resolve_clientId_def resolve_clientSecret_def installed_or_web_def installed_file_def js_or_def)
  have k: "resolve_clientId broken_file = Some ''abc''" "resolve_clientSecret broken_file = None"
    by (simp_all add: resolve_clientId_def resolve_clientSecret_def installed_or_web_def broken_file_def js_or_def)
  from a b i k
    set_credentials_validates_and_replaces [of example_reader "''creds.json''" installed_file
       "\<lambda>c s m. Inl UserDenied" empty_service, OF a n(1)]
    set_credentials_validates_and_replaces [of example_reader "''bad.json''" broken_file
       "\<lambda>c s m. Inl UserDenied" alice_service, OF b n(2)]
  show ?thesis by (auto simp: empty_service_def)
qed

section \<open>The authorization flow\<close>

lemma check_redirect_forged:
  "map_of ps ''state'' = Some st \<Longrightarrow> st \<noteq> session_state sess \<Longrightarrow> check_redirect sess ps = Inl StateMismatch"
  by (simp add: check_redirect_def)

text \<open>
  Claim C2: in every authorization session, if the redirect, whether received by the
  loopback listener or parsed from the pasted URL, carries a state parameter that differs
  from the state generated for the session, the flow fails with \<open>StateMismatch\<close>, issues
  no request to the token endpoint, and leaves no listener open. This holds for every
  token endpoint and whatever else the redirect carries.
\<close>

theorem forged_state_never_exchanges:
  "(inbound env = Redirect ps \<and> map_of ps ''state'' = Some st \<and> st \<noteq> fresh_state env \<longrightarrow>
       outcome (authorize_flow env client False) = Inl StateMismatch
     \<and> exchange_calls (authorize_flow env client False) = []
     \<and> \<not> listener_open (final_session (authorize_flow env client False)))
   \<and> (map_of (parse_query (pasted env)) ''state'' = Some st \<and> st \<noteq> fresh_state env \<longrightarrow>
       outcome (authorize_flow env client True) = Inl StateMismatch
     \<and> exchange_calls (authorize_flow env client True) = []
     \<and> \<not> listener_open (final_session (authorize_flow env client True)))"
  by (simp add: authorize_flow_def Let_def await_redirect_def flow_begin_def finish_def
      check_redirect_def)

theorem forged_state_never_exchanges_witness:
  "inbound forged_env = Redirect [(''code'', ''CODE123''), (''state'', ''forged'')]
   \<and> map_of [(''code'', ''CODE123''), (''state'', ''forged'')] ''state'' = Some ''forged''
   \<and> ''forged'' \<noteq> fresh_state forged_env
   \<and> map_of (parse_query (pasted forged_env)) ''state'' = Some ''forged''
   \<and> outcome (authorize_flow forged_env \<lparr>clientId = ''abc'', clientSecret = ''xyz''\<rparr> False) = Inl StateMismatch
   \<and> exchange_calls (authorize_flow forged_env \<lparr>clientId = ''abc'', clientSecret = ''xyz''\<rparr> False) = []
   \<and> outcome (authorize_flow forged_env \<lparr>clientId = ''abc'', clientSecret = ''xyz''\<rparr> True) = Inl StateMismatch
   \<and> exchange_calls (authorize_flow forged_env \<lparr>clientId = ''abc'', clientSecret = ''xyz''\<rparr> True) = []"
proof -
  have a: "inbound forged_env = Redirect [(''code'', ''CODE123''), (''state'', ''forged'')]"
    by (simp add: forged_env_def)
  have b: "map_of [(''code'', ''CODE123''), (''state'', ''forged'')] ''state'' = Some ''forged''"
    by simp
  have c: "''forged'' \<noteq> fresh_state forged_env"
    by (simp add: forged_env_def)
  have d: "map_of (parse_query (pasted forged_env)) ''state'' = Some ''forged''"
    by (simp add: forged_env_def parse_query_def)
  from a b c d
    forged_state_never_exchanges [of forged_env "[(''code'', ''CODE123''), (''state'', ''forged'')]"
      "''forged''" "\<lparr>clientId = ''abc'', clientSecret = ''xyz''\<rparr>"]
  show ?thesis by simp
qed

text \<open>With the state echoed faithfully the same flow exchanges the code once and succeeds.\<close>

lemma honest_flow_example:
  "outcome (authorize_flow honest_env \<lparr>clientId = ''abc'', clientSecret = ''xyz''\<rparr> True) = Inr ''rt-1''
   \<and> exchange_calls (authorize_flow honest_env \<lparr>clientId = ''abc'', clientSecret = ''xyz''\<rparr> True)
      = [\<lparr>ex_code = ''CODE123'', ex_client = \<lparr>clientId = ''abc'', clientSecret = ''xyz''\<rparr>,
          ex_redirect_uri = ''http://localhost''\<rparr>]
   \<and> outcome (authorize_flow honest_env \<lparr>clientId = ''abc'', clientSecret = ''xyz''\<rparr> False) = Inr ''rt-1''"
  by (simp add: authorize_flow_def Let_def await_redirect_def flow_begin_def finish_def
      check_redirect_def honest_env_def parse_query_def exchange_def)

section \<open>The client of an account and the remote call\<close>

lemma getDriveClient_store: "accountStorage (snd (getDriveClient svc em)) = accountStorage svc"
  by (simp add: getDriveClient_def Let_def split: option.splits)


lemma getDriveClient_cached:
  "map_of (driveClients svc) em = Some drive \<Longrightarrow> getDriveClient svc em = (Inr drive, svc)"
  by (simp add: getDriveClient_def)

lemma getDriveClient_succeeds:
  assumes "storage_getAccount (accountStorage svc) em = Some a"
  shows "\<exists>drive svc1. getDriveClient svc em = (Inr drive, svc1)"
  using assms by (cases "map_of (driveClients svc) em") (auto simp: getDriveClient_def Let_def)

text \<open>With a client at hand, the remote call is the call of the API on that client and on
  the parameters given, followed by putting the client back.\<close>

lemma remote_list_with_client:
  assumes "getDriveClient svc em = (Inr drive, svc1)"
  shows "remote_list api svc em params =
     (case api drive params of
        (r, drive', grants) \<Rightarrow>
          (case r of Inl e \<Rightarrow> Inl e | Inr d \<Rightarrow> Inr (to_result d),
           svc1\<lparr>driveClients := AList.update em drive' (driveClients svc1)\<rparr>,
           grants))"
  using assms
  by (simp add: remote_list_def Let_def split: prod.splits sum.splits)

lemma remote_list_without_client:
  assumes "getDriveClient svc em = (Inl e, svc1)"
  shows "remote_list api svc em params = (Inl e, svc1, [])"
  using assms by (simp add: remote_list_def)

lemma remote_list_store:
  "accountStorage (fst (snd (remote_list api svc em params))) = accountStorage svc"
proof (cases "getDriveClient svc em")
  case (Pair r svc1)
  with getDriveClient_store [of svc em] have s: "accountStorage svc1 = accountStorage svc" by simp
  show ?thesis
  proof (cases r)
    case (Inl e)
    with Pair s show ?thesis by (simp add: remote_list_without_client)
  next
    case (Inr drive)
    with Pair s show ?thesis
      by (simp add: remote_list_with_client split: prod.splits)
  qed
qed




section \<open>The query of listFiles\<close>

lemma trashed_in_folder_clause:
  "sublist ''trashed'' ([sq] @ f @ [sq] @ '' in parents'') \<longleftrightarrow> sublist ''trashed'' f"
proof -
  have "sublist ''trashed'' ([] @ sq # (f @ sq # '' in parents''))
      \<longleftrightarrow> sublist ''trashed'' [] \<or> sublist ''trashed'' (f @ sq # '' in parents'')"
    by (rule sublist_split_at) (simp add: sq_def)
  moreover have "sublist ''trashed'' (f @ sq # '' in parents'')
      \<longleftrightarrow> sublist ''trashed'' f \<or> sublist ''trashed'' '' in parents''"
    by (rule sublist_split_at) (simp add: sq_def)
  moreover have "\<not> sublist ''trashed'' '' in parents''"
    by (simp add: js_includes_sublist[symmetric])
  ultimately show ?thesis by simp
qed

lemma trashed_in_conjunction:
  "sublist ''trashed'' (a @ '' and '' @ b) \<longleftrightarrow> sublist ''trashed'' a \<or> sublist ''trashed'' b"
proof -
  have "sublist ''trashed'' (a @ CHR '' '' # (''and'' @ CHR '' '' # b))
      \<longleftrightarrow> sublist ''trashed'' a \<or> sublist ''trashed'' (''and'' @ CHR '' '' # b)"
    by (rule sublist_split_at) simp
  moreover have "sublist ''trashed'' (''and'' @ CHR '' '' # b)
      \<longleftrightarrow> sublist ''trashed'' ''and'' \<or> sublist ''trashed'' b"
    by (rule sublist_split_at) simp
  moreover have "\<not> sublist ''trashed'' ''and''"
    by (simp add: js_includes_sublist[symmetric])
  ultimately show ?thesis by simp
qed

text \<open>The test of line 104 is made on the combined query, so it sees the folder id too.\<close>

lemma listFiles_q_includes:
  "js_includes (if truthy folderId
                then (if or_empty query \<noteq> [] then or_empty query @ '' and '' @ ([sq] @ or_empty folderId @ [sq] @ '' in parents'')
                      else [sq] @ or_empty folderId @ [sq] @ '' in parents'')
                else or_empty query) ''trashed''
   \<longleftrightarrow> sublist ''trashed'' (or_empty query) \<or> (truthy folderId \<and> sublist ''trashed'' (or_empty folderId))"
  using trashed_in_conjunction[of "or_empty query" "[sq] @ or_empty folderId @ [sq] @ '' in parents''"]
        trashed_in_folder_clause[of "or_empty folderId"]
  by (auto simp: js_includes_sublist)

lemma listFiles_q_clean:
  assumes "\<not> sublist ''trashed'' (or_empty query)" "\<not> sublist ''trashed'' (or_empty folderId)"
  shows "listFiles_q query folderId =
           (if or_empty query = [] then [] else or_empty query @ '' and '')
           @ (if truthy folderId then [sq] @ or_empty folderId @ [sq] @ '' in parents and '' else [])
           @ ''trashed = false''"
  unfolding listFiles_q_def Let_def listFiles_q_includes
  using assms by simp

lemma listFiles_q_mentioned:
  assumes "sublist ''trashed'' (or_empty query)"
  shows "listFiles_q query folderId =
           or_empty query
           @ (if truthy folderId then '' and '' @ [sq] @ or_empty folderId @ [sq] @ '' in parents'' else [])"
proof -
  from assms have "or_empty query \<noteq> []" by auto
  then show ?thesis
    unfolding listFiles_q_def Let_def listFiles_q_includes
    using assms by simp
qed

text \<open>
  What \<open>listFiles\<close> sends where the test does what the comment of line 103 says: when
  neither the caller's query nor the folder id contains "trashed", the API receives the
  caller's query (if any), the folder clause (if any) and the clause "trashed = false",
  joined by " and "; when the caller's query contains "trashed", it receives the caller's
  query and the folder clause (if any), with no clause added.
\<close>

lemma listFiles_sends:
  assumes "getDriveClient svc em = (Inr drive, svc1)"
  shows "(\<not> sublist ''trashed'' (or_empty (opt_query opts))
            \<and> \<not> sublist ''trashed'' (or_empty (opt_folderId opts)) \<longrightarrow>
          fst (listFiles echo_api svc em opts) =
            Inr \<lparr>files = [], nextPageToken =
                  Some ((if or_empty (opt_query opts) = [] then [] else or_empty (opt_query opts) @ '' and '')
                        @ (if truthy (opt_folderId opts)
                           then [sq] @ or_empty (opt_folderId opts) @ [sq] @ '' in parents and '' else [])
                        @ ''trashed = false'')\<rparr>)
       \<and> (sublist ''trashed'' (or_empty (opt_query opts)) \<longrightarrow>
          fst (listFiles echo_api svc em opts) =
            Inr \<lparr>files = [], nextPageToken =
                  Some (or_empty (opt_query opts)
                        @ (if truthy (opt_folderId opts)
                           then '' and '' @ [sq] @ or_empty (opt_folderId opts) @ [sq] @ '' in parents''
                           else []))\<rparr>)"
proof (intro conjI impI)
  assume "\<not> sublist ''trashed'' (or_empty (opt_query opts))
            \<and> \<not> sublist ''trashed'' (or_empty (opt_folderId opts))"
  then show "fst (listFiles echo_api svc em opts) =
            Inr \<lparr>files = [], nextPageToken =
                  Some ((if or_empty (opt_query opts) = [] then [] else or_empty (opt_query opts) @ '' and '')
                        @ (if truthy (opt_folderId opts)
                           then [sq] @ or_empty (opt_folderId opts) @ [sq] @ '' in parents and '' else [])
                        @ ''trashed = false'')\<rparr>"
    by (simp add: listFiles_def remote_list_with_client [OF assms] echo_api_def to_result_def
        listFiles_params_def Let_def listFiles_q_clean)
next
  assume a: "sublist ''trashed'' (or_empty (opt_query opts))"
  then have "or_empty (opt_query opts) \<noteq> []" by auto
  with a show "fst (listFiles echo_api svc em opts) =
            Inr \<lparr>files = [], nextPageToken =
                  Some (or_empty (opt_query opts)
                        @ (if truthy (opt_folderId opts)
                           then '' and '' @ [sq] @ or_empty (opt_folderId opts) @ [sq] @ '' in parents''
                           else []))\<rparr>"
    by (simp add: listFiles_def remote_list_with_client [OF assms] echo_api_def to_result_def
        listFiles_params_def Let_def listFiles_q_mentioned)
qed

text \<open>
  Claim C9 at the input where the code departs from it: \<open>listFiles\<close> for the account of
  alice with no query and the folder id "trashed". The caller's query does not contain
  "trashed", so the claim, like the comment "Exclude trashed files by default" of line
  103, calls for the clause "trashed = false". Whatever the API is, the request it
  receives carries the query \<open>'trashed' in parents\<close> and nothing else: the folder clause
  appended at lines 100 and 101 satisfies the test of line 104. An API that answers
  with the query it received shows it, and that query does not contain the clause.
\<close>

theorem listFiles_folder_trashed_unfiltered:
  "listFiles api alice_service ''alice@example.com'' folder_trashed =
     (case api alice_drive
             \<lparr>param_q = Some ([sq] @ ''trashed'' @ [sq] @ '' in parents''),
              param_pageSize = 20, param_pageToken = None,
              param_orderBy = Some ''modifiedTime desc'', param_fields = list_fields,
              supportsAllDrives = True, includeItemsFromAllDrives = True\<rparr> of
        (r, drive', grants) \<Rightarrow>
          (case r of Inl e \<Rightarrow> Inl e | Inr d \<Rightarrow> Inr (to_result d),
           alice_service\<lparr>driveClients := [(''alice@example.com'', drive')]\<rparr>,
           grants))
   \<and> fst (listFiles echo_api alice_service ''alice@example.com'' folder_trashed) =
       Inr \<lparr>files = [], nextPageToken = Some ([sq] @ ''trashed'' @ [sq] @ '' in parents'')\<rparr>
   \<and> \<not> sublist ''trashed'' (or_empty (opt_query folder_trashed))
   \<and> \<not> sublist ''trashed = false'' ([sq] @ ''trashed'' @ [sq] @ '' in parents'')"
proof (intro conjI)
  have p: "listFiles_params folder_trashed =
      \<lparr>param_q = Some ([sq] @ ''trashed'' @ [sq] @ '' in parents''),
       param_pageSize = 20, param_pageToken = None,
       param_orderBy = Some ''modifiedTime desc'', param_fields = list_fields,
       supportsAllDrives = True, includeItemsFromAllDrives = True\<rparr>"
    by (simp add: listFiles_params_def listFiles_q_def Let_def or_empty_def folder_trashed_def)
  have g: "getDriveClient alice_service ''alice@example.com'' =
      (Inr alice_drive, alice_service\<lparr>driveClients := [(''alice@example.com'', alice_drive)]\<rparr>)"
    by (simp add: getDriveClient_def storage_getAccount_def alice_service_def alice_def
        alice_drive_def Let_def)
  show "listFiles api alice_service ''alice@example.com'' folder_trashed =
     (case api alice_drive
             \<lparr>param_q = Some ([sq] @ ''trashed'' @ [sq] @ '' in parents''),
              param_pageSize = 20, param_pageToken = None,
              param_orderBy = Some ''modifiedTime desc'', param_fields = list_fields,
              supportsAllDrives = True, includeItemsFromAllDrives = True\<rparr> of
        (r, drive', grants) \<Rightarrow>
          (case r of Inl e \<Rightarrow> Inl e | Inr d \<Rightarrow> Inr (to_result d),
           alice_service\<lparr>driveClients := [(''alice@example.com'', drive')]\<rparr>,
           grants))"
    by (simp add: listFiles_def remote_list_def g p Let_def split: prod.splits sum.splits)
  show "fst (listFiles echo_api alice_service ''alice@example.com'' folder_trashed) =
       Inr \<lparr>files = [], nextPageToken = Some ([sq] @ ''trashed'' @ [sq] @ '' in parents'')\<rparr>"
    by (simp add: listFiles_def remote_list_def g p Let_def echo_api_def to_result_def)
  show "\<not> sublist ''trashed'' (or_empty (opt_query folder_trashed))"
    by (simp add: js_includes_sublist[symmetric] or_empty_def folder_trashed_def)
  show "\<not> sublist ''trashed = false'' ([sq] @ ''trashed'' @ [sq] @ '' in parents'')"
    by (simp add: js_includes_sublist[symmetric] sq_def)
qed

section \<open>The query of search\<close>

text \<open>
  Claim C10: for every query string \<open>s\<close>, the request that \<open>search\<close> hands to the remote
  API carries exactly the query "fullText contains '" followed by \<open>escape s\<close> and
  "' and trashed = false", where \<open>escape\<close> replaces every single quote by a backslash and
  a single quote. Whenever the account has a client, \<open>search\<close> is, for every API, the call
  of that API on that client and on the request with this query, so the request is a
  function of the inputs alone; an API that answers with the query it received
  returns this query.
\<close>

theorem search_sends_exact_query:
  assumes "getDriveClient svc em = (Inr drive, svc1)"
  shows "search api svc em s maxResults pageToken =
     (case api drive
             \<lparr>param_q = Some (''fullText contains '' @ [sq] @ escape s @ [sq] @ '' and trashed = false''),
              param_pageSize = (case maxResults of None \<Rightarrow> 20 | Some n \<Rightarrow> n),
              param_pageToken = pageToken, param_orderBy = None, param_fields = list_fields,
              supportsAllDrives = True, includeItemsFromAllDrives = True\<rparr> of
        (r, drive', grants) \<Rightarrow>
          (case r of Inl e \<Rightarrow> Inl e | Inr d \<Rightarrow> Inr (to_result d),
           svc1\<lparr>driveClients := AList.update em drive' (driveClients svc1)\<rparr>,
           grants))
   \<and> fst (search echo_api svc em s maxResults pageToken) =
       Inr \<lparr>files = [], nextPageToken =
             Some (''fullText contains '' @ [sq] @ escape s @ [sq] @ '' and trashed = false'')\<rparr>"
proof -
  have e: "replace_char_global sq [bs, sq] s = escape s"
    by (induction s) (auto simp: escape_def)
  show ?thesis
    using assms
    by (simp add: search_def remote_list_def Let_def search_params_def search_q_def e
        echo_api_def to_result_def split: prod.splits sum.splits)
qed

theorem search_sends_exact_query_witness:
  "getDriveClient alice_service ''alice@example.com'' =
     (Inr alice_drive, alice_service\<lparr>driveClients := [(''alice@example.com'', alice_drive)]\<rparr>)
   \<and> escape ''it's'' = ''it'' @ [bs, sq] @ ''s''
   \<and> fst (search echo_api alice_service ''alice@example.com'' ''it's'' None None) =
       Inr \<lparr>files = [], nextPageToken =
             Some (''fullText contains '' @ [sq] @ ''it'' @ [bs, sq] @ ''s'' @ [sq] @ '' and trashed = false'')\<rparr>"
proof -
  have e: "escape ''it's'' = ''it'' @ [bs, sq] @ ''s''"
    by (simp add: escape_def sq_def)
  have g: "getDriveClient alice_service ''alice@example.com'' =
      (Inr alice_drive, alice_service\<lparr>driveClients := [(''alice@example.com'', alice_drive)]\<rparr>)"
    by (simp add: getDriveClient_def storage_getAccount_def alice_service_def alice_def
        alice_drive_def Let_def)
  from g e
    search_sends_exact_query [OF g, of echo_api "''it's''" None None, THEN conjunct2]
  show ?thesis by simp
qed

section \<open>Tokens in remote calls\<close>










section \<open>What addAccount persists\<close>

text \<open>
  \<open>addAccount\<close> stores the refresh token exactly as the authorization flow returned it
  and makes no check of its own; when it fails, nothing is written. So the stored refresh
  tokens stay non-empty under every operation of the service as long as the flow yields
  only non-empty tokens; no other operation adds or changes a record.
\<close>

lemma addAccount_persists_flow_token:
  assumes "addAccount authorize svc em cid csecret manual = (Inr (), svc', tr)"
  shows "\<exists>token. authorize cid csecret manual = Inr token
           \<and> accounts (accountStorage svc') = accounts (accountStorage svc)
                @ [\<lparr>email = em, oauth2 = \<lparr>clientId = cid, clientSecret = csecret,
                                          refreshToken = token, accessToken = None\<rparr>\<rparr>]"
  using assms
  by (auto simp: addAccount_def storage_addAccount_def split: if_splits sum.splits)

lemma addAccount_failure_writes_nothing:
  assumes "addAccount authorize svc em cid csecret manual = (Inl e, svc', tr)"
  shows "svc' = svc"
  using assms
  by (auto simp: addAccount_def storage_addAccount_def split: if_splits sum.splits)

lemma refresh_tokens_nonempty_preserved:
  assumes "refresh_tokens_nonempty svc"
  shows "(\<forall>c s m t. authorize c s m = Inr t \<longrightarrow> t \<noteq> [])
           \<longrightarrow> refresh_tokens_nonempty (fst (snd (addAccount authorize svc em cid csecret manual)))"
    and "refresh_tokens_nonempty (snd (deleteAccount svc em))"
    and "refresh_tokens_nonempty (setCredentials svc cid csecret)"
    and "refresh_tokens_nonempty (snd (getDriveClient svc em))"
    and "refresh_tokens_nonempty (fst (snd (listFiles api svc em opts)))"
    and "refresh_tokens_nonempty (fst (snd (search api svc em q maxResults pageToken)))"
proof -
  show "(\<forall>c s m t. authorize c s m = Inr t \<longrightarrow> t \<noteq> [])
           \<longrightarrow> refresh_tokens_nonempty (fst (snd (addAccount authorize svc em cid csecret manual)))"
    using assms
    by (auto simp: refresh_tokens_nonempty_def addAccount_def storage_addAccount_def
        split: sum.splits)
  show "refresh_tokens_nonempty (snd (deleteAccount svc em))"
    using assms
    by (auto simp: refresh_tokens_nonempty_def deleteAccount_def storage_deleteAccount_def
        list_all_iff)
  show "refresh_tokens_nonempty (setCredentials svc cid csecret)"
    using assms
    by (simp add: refresh_tokens_nonempty_def setCredentials_def storage_setCredentials_def)
  show "refresh_tokens_nonempty (snd (getDriveClient svc em))"
    using assms by (simp add: refresh_tokens_nonempty_def getDriveClient_store)
  show "refresh_tokens_nonempty (fst (snd (listFiles api svc em opts)))"
    using assms by (simp add: refresh_tokens_nonempty_def listFiles_def remote_list_store)
  show "refresh_tokens_nonempty (fst (snd (search api svc em q maxResults pageToken)))"
    using assms by (simp add: refresh_tokens_nonempty_def search_def remote_list_store)
qed

end
